theory Spec2Isabelle
  imports Complex_Main "HOL-Library.Char_ord" "HOL-Library.List_Lexorder"
    "HOL-Library.Product_Lexorder" "HOL-Library.Sublist"
begin

section \<open>Data model\<close>

text \<open>
  One row of the data frame that \<open>app.py\<close> works on. The columns are the ones the script
  reads: \<open>Route\<close>, \<open>From\<close>, \<open>To\<close>, \<open>From_Country\<close>, \<open>Year\<close>, \<open>Type\<close>, \<open>Passengers\<close> and the four
  coordinates. \<open>Year\<close> and \<open>Passengers\<close> are integer columns; sums of \<open>Passengers\<close> are taken
  over the unbounded integers. The coordinates are floating-point columns; they are
  modelled as real numbers, and rows are complete (no missing cell).
\<close>

record row =
  Route :: string
  From :: string
  To :: string
  From_Country :: string
  Year :: int
  Type :: string
  Passengers :: int
  From_Lat :: real
  From_Lon :: real
  To_Lat :: real
  To_Lon :: real

text \<open>The exceptions that the modelled part of the script can raise, each with its message.\<close>

datatype py_error =
  ValueError string
  | KeyError string
  | ZeroDivisionError string
  | External string

fun str_of :: "py_error \<Rightarrow> string" where
  "str_of (ValueError m) = m"
| "str_of (KeyError m) = m"
| "str_of (ZeroDivisionError m) = m"
| "str_of (External m) = m"

section \<open>Filter (line 60)\<close>

text \<open>
  \<open>df[df["Year"].isin(selected_year) & df["Type"].isin(selected_type)]\<close>:
  \<open>isin\<close> maps a column to a boolean mask, \<open>&\<close> combines two masks element by element,
  and indexing a frame with a mask keeps the rows whose mask entry is true, in order.
\<close>

definition isin :: "'a list \<Rightarrow> 'a list \<Rightarrow> bool list" where
  "isin col vals = map (\<lambda>v. v \<in> set vals) col"

definition mask_and :: "bool list \<Rightarrow> bool list \<Rightarrow> bool list" where
  "mask_and a b = map (\<lambda>(x, y). x \<and> y) (zip a b)"

definition getitem_mask :: "'r list \<Rightarrow> bool list \<Rightarrow> 'r list" where
  "getitem_mask df bmask = map fst (filter snd (zip df bmask))"

definition filtered_df :: "row list \<Rightarrow> int list \<Rightarrow> string list \<Rightarrow> row list" where
  "filtered_df df selected_year selected_type =
     getitem_mask df (mask_and (isin (map Year df) selected_year)
                               (isin (map Type df) selected_type))"

section \<open>Key metrics (lines 65-67)\<close>

definition total_passengers :: "row list \<Rightarrow> int" where
  "total_passengers fdf = sum_list (map Passengers fdf)"

definition total_routes :: "row list \<Rightarrow> nat" where
  "total_routes fdf = length fdf"

text \<open>
  \<open>Series.idxmax\<close>: the label of the first occurrence of the maximum; on an empty series
  it raises \<open>ValueError\<close>.
\<close>

fun idxmax :: "('k \<times> int) list \<Rightarrow> py_error + 'k" where
  "idxmax [] = Inl (ValueError ''attempt to get argmax of an empty sequence'')"
| "idxmax (g # gs) = Inr (fst (fold (\<lambda>x best. if snd best < snd x then x else best) gs g))"

section \<open>Group-by aggregation\<close>

text \<open>
  \<open>df.groupby(keys)["Passengers"].sum()\<close>: the rows are read in order, each one is added to
  the running sum of its group (a new group is appended when its key is seen for the first
  time), and the groups are then put in ascending order of their key (\<open>sort=True\<close>, the
  default). A key made of several columns is a tuple, compared lexicographically.
\<close>

fun add_group :: "'k \<Rightarrow> int \<Rightarrow> ('k \<times> int) list \<Rightarrow> ('k \<times> int) list" where
  "add_group k v [] = [(k, v)]"
| "add_group k v ((k', s) # gs) =
     (if k' = k then (k', s + v) # gs else (k', s) # add_group k v gs)"

definition groupby_sum ::
  "('r \<Rightarrow> 'k::linorder) \<Rightarrow> ('r \<Rightarrow> int) \<Rightarrow> 'r list \<Rightarrow> ('k \<times> int) list" where
  "groupby_sum key val df = sort_key fst (fold (\<lambda>r. add_group (key r) (val r)) df [])"

text \<open>
  The sum that the specification speaks of: \<open>val\<close> added up over the rows whose key is \<open>k\<close>.
  It is used in statements only.
\<close>

definition group_total :: "('r \<Rightarrow> 'k) \<Rightarrow> ('r \<Rightarrow> int) \<Rightarrow> 'r list \<Rightarrow> 'k \<Rightarrow> int" where
  "group_total key val df k = sum_list (map val (filter (\<lambda>r. key r = k) df))"

definition top_country :: "row list \<Rightarrow> py_error + string" where
  "top_country fdf = idxmax (groupby_sum From_Country Passengers fdf)"

section \<open>Passenger trend (line 82)\<close>

definition yearly_passengers :: "row list \<Rightarrow> (int \<times> int) list" where
  "yearly_passengers fdf = groupby_sum Year Passengers fdf"

section \<open>Busiest routes (lines 135-136)\<close>

type_synonym route_key = "string \<times> string \<times> string \<times> real \<times> real \<times> real \<times> real"

type_synonym route_agg = "route_key \<times> int"

definition route_key :: "row \<Rightarrow> route_key" where
  "route_key r = (Route r, From r, To r, From_Lat r, From_Lon r, To_Lat r, To_Lon r)"

definition route_data :: "row list \<Rightarrow> route_agg list" where
  "route_data fdf = groupby_sum route_key Passengers fdf"

text \<open>
  \<open>sort_values(..., ascending=False)\<close>: the library reverses the values, sorts them in
  ascending order and reverses the result. The order among equal keys depends on the
  sorting algorithm of the library; the insertion sort used here keeps them in their
  original order, and no statement below depends on that order.
\<close>

definition sort_values_desc :: "('a \<Rightarrow> 'b::linorder) \<Rightarrow> 'a list \<Rightarrow> 'a list" where
  "sort_values_desc f xs = rev (sort_key f (rev xs))"

definition top_routes :: "row list \<Rightarrow> route_agg list" where
  "top_routes fdf = take 10 (sort_values_desc snd (route_data fdf))"

section \<open>Departure countries by route type (lines 101-103)\<close>

text \<open>
  A frame whose row labels are countries and whose column labels are route types. A cell
  is \<open>None\<close> where the library holds NaN (a missing value). The library stores a column
  that has had a missing cell as floating point; the cells are kept here as the integers
  they stand for.
\<close>

record frame =
  columns :: "string list"
  records :: "(string \<times> int option list) list"

text \<open>
  \<open>unstack()\<close> on a series indexed by (country, type): one row per country and one column
  per type, both in ascending order; a cell holds the value of its (country, type) pair,
  and is missing when the series has no such pair.
\<close>

text \<open>The distinct labels of an index level, in ascending order.\<close>

definition sorted_unique :: "'a::linorder list \<Rightarrow> 'a list" where
  "sorted_unique xs = sort (remdups xs)"

definition unstack :: "((string \<times> string) \<times> int) list \<Rightarrow> frame" where
  "unstack s =
     (let cs = sorted_unique (map (snd \<circ> fst) s)
      in \<lparr>columns = cs,
          records = map (\<lambda>c. (c, map (\<lambda>t. map_of s (c, t)) cs))
                        (sorted_unique (map (fst \<circ> fst) s))\<rparr>)"

definition fillna :: "int \<Rightarrow> frame \<Rightarrow> frame" where
  "fillna v f =
     f\<lparr>records :=
         map (\<lambda>(c, xs). (c, map (\<lambda>x. case x of None \<Rightarrow> Some v | Some y \<Rightarrow> Some y) xs))
             (records f)\<rparr>"

text \<open>\<open>sum(axis=1)\<close>: the sum of each row, missing cells skipped.\<close>

definition sum_axis1 :: "frame \<Rightarrow> int list" where
  "sum_axis1 f =
     map (\<lambda>(c, xs). sum_list (map (\<lambda>x. case x of None \<Rightarrow> 0 | Some y \<Rightarrow> y) xs)) (records f)"

text \<open>
  \<open>f[name] = vals\<close>: a column with that label is overwritten; otherwise the column is
  appended on the right.
\<close>

definition setitem :: "string \<Rightarrow> int list \<Rightarrow> frame \<Rightarrow> frame" where
  "setitem name vals f =
     (if name \<in> set (columns f)
      then f\<lparr>records :=
               map (\<lambda>((c, xs), v).
                      (c, map (\<lambda>(cn, x). if cn = name then Some v else x) (zip (columns f) xs)))
                   (zip (records f) vals)\<rparr>
      else \<lparr>columns = columns f @ [name],
            records = map (\<lambda>((c, xs), v). (c, xs @ [Some v])) (zip (records f) vals)\<rparr>)"

text \<open>The cell of a row under a column label; missing when there is no such column.\<close>

definition cell :: "string list \<Rightarrow> string \<Rightarrow> int option list \<Rightarrow> int option" where
  "cell cs name xs = (case map_of (zip cs xs) name of None \<Rightarrow> None | Some x \<Rightarrow> x)"

text \<open>
  \<open>sort_values(name, ascending=False)\<close> on a frame: rows in descending order of the named
  column, rows whose cell is missing last; \<open>KeyError\<close> when there is no such column.
\<close>

definition sort_values_frame :: "string \<Rightarrow> frame \<Rightarrow> py_error + frame" where
  "sort_values_frame name f =
     (if name \<in> set (columns f)
      then Inr (f\<lparr>records :=
                    sort_values_desc (\<lambda>r. the (cell (columns f) name (snd r)))
                       (filter (\<lambda>r. cell (columns f) name (snd r) \<noteq> None) (records f))
                    @ filter (\<lambda>r. cell (columns f) name (snd r) = None) (records f)\<rparr>)
      else Inl (KeyError name))"

text \<open>\<open>head(n)\<close>: the first \<open>n\<close> rows.\<close>

definition head :: "nat \<Rightarrow> frame \<Rightarrow> frame" where
  "head n f = f\<lparr>records := take n (records f)\<rparr>"

text \<open>
  \<open>drop(columns=name)\<close>: every column with that label is removed; \<open>KeyError\<close> when there is
  none.
\<close>

definition drop_columns :: "string \<Rightarrow> frame \<Rightarrow> py_error + frame" where
  "drop_columns name f =
     (if name \<in> set (columns f)
      then Inr \<lparr>columns = filter (\<lambda>cn. cn \<noteq> name) (columns f),
                records = map (\<lambda>(c, xs). (c, map snd (filter (\<lambda>(cn, x). cn \<noteq> name)
                                                          (zip (columns f) xs))))
                              (records f)\<rparr>
      else Inl (KeyError name))"

text \<open>The grouping key of line 101 and the chain of calls of lines 101-103.\<close>

definition country_type :: "row \<Rightarrow> string \<times> string" where
  "country_type r = (From_Country r, Type r)"

definition top_departure_countries :: "row list \<Rightarrow> py_error + frame" where
  "top_departure_countries fdf =
     (let t = fillna 0 (unstack (groupby_sum country_type Passengers fdf));
          t = setitem ''Total'' (sum_axis1 t) t
      in case sort_values_frame ''Total'' t of
           Inl e \<Rightarrow> Inl e
         | Inr t \<Rightarrow> drop_columns ''Total'' (head 5 t))"

section \<open>Route map (lines 177-226)\<close>

text \<open>Python's \<open>max\<close> over a sequence; it raises \<open>ValueError\<close> on an empty one.\<close>

fun py_max :: "int list \<Rightarrow> py_error + int" where
  "py_max [] = Inl (ValueError ''max() arg is an empty sequence'')"
| "py_max (x # xs) = Inr (fold max xs x)"

text \<open>
  Line 181:
  \<open>2 + passenger_count / max(top_routes["Passengers"]) * 5 if not top_routes["Passengers"].empty else 2\<close>.
  The condition is evaluated first. The division is Python's true division of two
  integers: it raises \<open>ZeroDivisionError\<close> when the divisor is 0, and its floating-point
  result is modelled by the exact quotient.
\<close>

definition line_weight :: "int \<Rightarrow> int list \<Rightarrow> py_error + real" where
  "line_weight passenger_count passengers =
     (if passengers \<noteq> [] then
        (case py_max passengers of
           Inl e \<Rightarrow> Inl e
         | Inr m \<Rightarrow>
             if m = 0 then Inl (ZeroDivisionError ''division by zero'')
             else Inr (2 + real_of_int passenger_count / real_of_int m * 5))
      else Inr 2)"

record map_line =
  line_route :: route_agg
  weight :: real
  midpoint :: "real \<times> real"

text \<open>
  The loop over the rows of \<open>top_routes\<close> (lines 177-226); an exception in one iteration
  ends the loop.
\<close>

fun map_lines :: "route_agg list \<Rightarrow> route_agg list \<Rightarrow> py_error + map_line list" where
  "map_lines top_set [] = Inr []"
| "map_lines top_set (((route, frm, to, from_lat, from_lon, to_lat, to_lon), passenger_count) # rest) =
     (case line_weight passenger_count (map snd top_set) of
        Inl e \<Rightarrow> Inl e
      | Inr w \<Rightarrow>
          (case map_lines top_set rest of
             Inl e \<Rightarrow> Inl e
           | Inr ls \<Rightarrow>
               Inr (\<lparr>line_route = ((route, frm, to, from_lat, from_lon, to_lat, to_lon),
                                   passenger_count),
                      weight = w,
                      midpoint = ((from_lat + to_lat) / 2, (from_lon + to_lon) / 2)\<rparr> # ls)))"

section \<open>Loading the data (lines 23-42)\<close>

text \<open>
  What the script finds outside itself: the outcome of reading the MongoDB collection
  (the documents, or the exception raised on the way), whether the CSV file exists, and
  the outcome of \<open>pd.read_csv\<close> on it.
\<close>

record world =
  mongo :: "py_error + row list"
  csv_exists :: bool
  read_csv :: "py_error + row list"

text \<open>
  A data frame built from an empty list of documents has no columns at all; any other
  frame has the columns of \<open>row\<close>.
\<close>

datatype dataframe = NoColumns | Frame "row list"

text \<open>What the script shows on the page, in order.\<close>

datatype ui_event =
  Title string
  | Markdown string
  | Success string
  | Warning string
  | Error string
  | SidebarHeader string
  | Multiselect_int string "int list"
  | Multiselect_str string "string list"
  | Header string
  | Metric_int string int
  | Metric_str string string
  | Dataframe "row list"
  | Pyplot_line "(int \<times> int) list"
  | Pyplot_bar frame
  | Table "(string \<times> int) list"
  | Folium_map "map_line list"

definition load_data :: "world \<Rightarrow> ui_event list \<times> (py_error + dataframe option)" where
  "load_data w =
     (case mongo w of
        Inr docs \<Rightarrow>
          ([Success ''Data loaded from MongoDB''],
           Inr (Some (if docs = [] then NoColumns else Frame docs)))
      | Inl e \<Rightarrow>
          (if csv_exists w then
             (case read_csv w of
                Inr data \<Rightarrow>
                  ([Warning (''Could not connect to MongoDB: '' @ str_of e),
                    Success ''Data loaded from CSV''],
                   Inr (Some (Frame data)))
              | Inl e' \<Rightarrow>
                  ([Warning (''Could not connect to MongoDB: '' @ str_of e)], Inl e'))
           else
             ([Warning (''Could not connect to MongoDB: '' @ str_of e),
               Error ''No data source available. Please ensure MongoDB is running or provide a CSV file.''],
              Inr None)))"

section \<open>The page (lines 47-259)\<close>

text \<open>\<open>unique()\<close>: the distinct values of a column in order of first appearance.\<close>

definition unique :: "'a list \<Rightarrow> 'a list" where
  "unique xs = fold (\<lambda>x acc. if x \<in> set acc then acc else acc @ [x]) xs []"

text \<open>
  Each block returns what it shows and, when it ends in an exception that nothing catches,
  that exception. The plotting and mapping libraries are taken to draw whatever they are
  given.
\<close>

definition key_metrics :: "row list \<Rightarrow> ui_event list \<times> py_error option" where
  "key_metrics fdf =
     (case top_country fdf of
        Inl e \<Rightarrow> ([Header ''Key Metrics''], Some e)
      | Inr c \<Rightarrow>
          ([Header ''Key Metrics'',
            Metric_int ''Total Passengers'' (total_passengers fdf),
            Metric_int ''Total Routes'' (int (total_routes fdf)),
            Metric_str ''Top Origin Country'' c], None))"

definition data_table :: "row list \<Rightarrow> ui_event list" where
  "data_table fdf = [Header ''Flight Routes Data'', Dataframe fdf]"

definition passenger_trends :: "row list \<Rightarrow> ui_event list" where
  "passenger_trends fdf =
     [Header ''Passenger Trends by Year'', Pyplot_line (yearly_passengers fdf)]"

definition departure_chart :: "row list \<Rightarrow> ui_event list" where
  "departure_chart fdf =
     Header ''Top 5 Departure Countries by Route Type'' #
     (case top_departure_countries fdf of
        Inr t \<Rightarrow> [Pyplot_bar t]
      | Inl e \<Rightarrow> [Error (''Error rendering departure countries chart: '' @ str_of e)])"

definition busiest_routes :: "row list \<Rightarrow> ui_event list" where
  "busiest_routes fdf =
     [Header ''Top 10 Busiest Routes'',
      Table (map (\<lambda>(k, p). (fst k, p)) (top_routes fdf))]"

definition route_map :: "row list \<Rightarrow> ui_event list" where
  "route_map fdf =
     Header ''Interactive Flight Routes Map'' #
     (case map_lines (top_routes fdf) (top_routes fdf) of
        Inr ls \<Rightarrow> [Folium_map ls]
      | Inl e \<Rightarrow> [Error (''Error rendering map: '' @ str_of e)])"

text \<open>
  The branch \<open>if df is not None\<close>. The two selections are what the user has chosen in the
  two multiselect widgets.
\<close>

definition dashboard ::
  "dataframe \<Rightarrow> int list \<Rightarrow> string list \<Rightarrow> ui_event list \<times> py_error option" where
  "dashboard df selected_year selected_type =
     (case df of
        NoColumns \<Rightarrow> ([SidebarHeader ''Filter Options''], Some (KeyError ''Year''))
      | Frame rows \<Rightarrow>
          (let sidebar =
                 [SidebarHeader ''Filter Options'',
                  Multiselect_int ''Select Year(s)'' (sort (unique (map Year rows))),
                  Multiselect_str ''Select Route Type(s)'' (unique (map Type rows))];
               fdf = filtered_df rows selected_year selected_type
           in case key_metrics fdf of
                (evs, Some e) \<Rightarrow> (sidebar @ evs, Some e)
              | (evs, None) \<Rightarrow>
                  (sidebar @ evs @ data_table fdf @ passenger_trends fdf
                     @ departure_chart fdf @ busiest_routes fdf @ route_map fdf,
                   None)))"

text \<open>
  Lines 15-19, shown before the data is loaded. The title is given without its leading
  pictogram and the description by its first words.
\<close>

definition page_top :: "ui_event list" where
  "page_top = [Title ''Global Flight Route Analysis'', Markdown ''Flight Route Analysis app'']"

definition script ::
  "world \<Rightarrow> int list \<Rightarrow> string list \<Rightarrow> ui_event list \<times> py_error option" where
  "script w selected_year selected_type =
     (case load_data w of
        (evs, Inl e) \<Rightarrow> (page_top @ evs, Some e)
      | (evs, Inr None) \<Rightarrow>
          (page_top @ evs @ [Error ''Unable to load data for visualization.''], None)
      | (evs, Inr (Some df)) \<Rightarrow>
          (case dashboard df selected_year selected_type of
             (evs', x) \<Rightarrow> (page_top @ evs @ evs', x)))"

section \<open>Example data\<close>

text \<open>
  The scenario of the specification: two rows of year 2020 and type A with 10 and 20
  passengers, one row of year 2021 and type B with 5 passengers.
\<close>

definition mk_row :: "string \<Rightarrow> string \<Rightarrow> int \<Rightarrow> string \<Rightarrow> int \<Rightarrow> row" where
  "mk_row route country year type passengers =
     \<lparr>Route = route, From = ''f'', To = ''t'', From_Country = country, Year = year,
      Type = type, Passengers = passengers,
      From_Lat = 0, From_Lon = 0, To_Lat = 1, To_Lon = 1\<rparr>"

definition scenario_df :: "row list" where
  "scenario_df =
     [mk_row ''r1'' ''X'' 2020 ''A'' 10,
      mk_row ''r2'' ''Y'' 2020 ''A'' 20,
      mk_row ''r3'' ''X'' 2021 ''B'' 5]"

text \<open>Eleven routes with 1 to 11 passengers, one more than the ranked table keeps.\<close>

definition eleven_routes :: "row list" where
  "eleven_routes =
     map (\<lambda>(route, p). mk_row route ''X'' 2020 ''A'' p)
       [(''a'', 1), (''b'', 2), (''c'', 3), (''d'', 4), (''e'', 5), (''f'', 6),
        (''g'', 7), (''h'', 8), (''i'', 9), (''j'', 10), (''k'', 11)]"

text \<open>Routes for the line weights: one with no passengers, and the three of the specification.\<close>

definition zero_route_df :: "row list" where
  "zero_route_df = [mk_row ''r1'' ''X'' 2020 ''A'' 100, mk_row ''r2'' ''X'' 2020 ''A'' 0]"

definition spec_weights_df :: "row list" where
  "spec_weights_df =
     [mk_row ''r1'' ''X'' 2020 ''A'' 100, mk_row ''r2'' ''X'' 2020 ''A'' 50,
      mk_row ''r3'' ''X'' 2020 ''A'' 10]"

text \<open>The events that are error messages (\<open>st.error\<close>).\<close>

fun is_error :: "ui_event \<Rightarrow> bool" where
  "is_error (Error m) = True"
| "is_error e = False"

text \<open>
  Four situations outside the script: the database answers with the rows of the scenario;
  the database fails and the CSV file holds those rows; the database fails and there is
  no file; the database answers with a single route that has no passengers.
\<close>

definition mongo_world :: world where
  "mongo_world = \<lparr>mongo = Inr scenario_df, csv_exists = False, read_csv = Inl (External ''no file'')\<rparr>"

definition csv_world :: world where
  "csv_world = \<lparr>mongo = Inl (External ''timed out''), csv_exists = True, read_csv = Inr scenario_df\<rparr>"

definition unavailable_world :: world where
  "unavailable_world =
     \<lparr>mongo = Inl (External ''timed out''), csv_exists = False, read_csv = Inl (External ''no file'')\<rparr>"

definition idle_routes_world :: world where
  "idle_routes_world =
     \<lparr>mongo = Inr [mk_row ''r1'' ''X'' 2020 ''A'' 0], csv_exists = False,
      read_csv = Inl (External ''no file'')\<rparr>"

text \<open>
  Six departure countries, one more than the bar chart keeps, over two route types; several
  (country, type) pairs have no row.
\<close>

definition six_countries_df :: "row list" where
  "six_countries_df =
     [mk_row ''r1'' ''A'' 2020 ''dom'' 10, mk_row ''r2'' ''A'' 2020 ''int'' 5,
      mk_row ''r3'' ''B'' 2020 ''dom'' 20, mk_row ''r4'' ''C'' 2020 ''int'' 30,
      mk_row ''r5'' ''D'' 2020 ''dom'' 40, mk_row ''r6'' ''E'' 2020 ''dom'' 50,
      mk_row ''r7'' ''F'' 2020 ''int'' 1, mk_row ''r8'' ''A'' 2021 ''dom'' 2]"

section \<open>The filter\<close>

lemma getitem_mask_map:
  "getitem_mask df (map P df) = filter P df"
  by (induction df) (simp_all add: getitem_mask_def)

lemma mask_and_map:
  "mask_and (map P xs) (map Q xs) = map (\<lambda>x. P x \<and> Q x) xs"
  by (induction xs) (simp_all add: mask_and_def)

lemma filtered_df_filter:
  "filtered_df df ys ts = filter (\<lambda>r. Year r \<in> set ys \<and> Type r \<in> set ts) df"
proof -
  have "mask_and (isin (map Year df) ys) (isin (map Type df) ts)
        = map (\<lambda>r. Year r \<in> set ys \<and> Type r \<in> set ts) df"
    using mask_and_map [of "\<lambda>r. Year r \<in> set ys" df "\<lambda>r. Type r \<in> set ts"]
    by (simp add: isin_def comp_def)
  then show ?thesis
    by (simp add: filtered_df_def getitem_mask_map)
qed

text \<open>
  C1. For every data frame and every pair of selections, the filtered frame is a
  subsequence of the original rows (same rows, same order, nothing added), and the rows
  it holds are exactly the rows whose \<open>Year\<close> is one of the selected years and whose
  \<open>Type\<close> is one of the selected types.
\<close>

theorem filter_subset_and_membership:
  "subseq (filtered_df df ys ts) df
   \<and> set (filtered_df df ys ts) \<subseteq> set df
   \<and> set (filtered_df df ys ts) = {r. r \<in> set df \<and> Year r \<in> set ys \<and> Type r \<in> set ts}"
  by (auto simp add: filtered_df_filter)

text \<open>
  C8. An empty selection in either dimension gives an empty frame, whatever the other
  selection is.
\<close>

theorem filter_empty_selection:
  "filtered_df df [] ts = [] \<and> filtered_df df ys [] = []"
  by (simp add: filtered_df_filter)

text \<open>
  C10. When the filtered frame is empty, the sum of its \<open>Passengers\<close> column is 0 and its
  row count is 0.
\<close>

theorem empty_filter_totals:
  "filtered_df df ys ts = [] \<Longrightarrow>
     total_passengers (filtered_df df ys ts) = 0 \<and> total_routes (filtered_df df ys ts) = 0"
  by (simp add: total_passengers_def total_routes_def)

theorem empty_filter_totals_witness:
  "filtered_df scenario_df [] [''A''] = []
   \<and> total_passengers (filtered_df scenario_df [] [''A'']) = 0
   \<and> total_routes (filtered_df scenario_df [] [''A'']) = 0"
proof -
  have h: "filtered_df scenario_df [] [''A''] = []"
    by (simp add: filtered_df_filter)
  show ?thesis
    using h empty_filter_totals [OF h] by simp
qed

text \<open>
  The scenario of the specification: the selection of year 2020 and type A keeps two rows,
  with 30 passengers in total.
\<close>

lemma scenario_filter_totals:
  "total_routes (filtered_df scenario_df [2020] [''A'']) = 2
   \<and> total_passengers (filtered_df scenario_df [2020] [''A'']) = 30"
  by (simp add: filtered_df_filter scenario_df_def mk_row_def total_routes_def
      total_passengers_def)

section \<open>Group-by aggregation\<close>

lemma keys_add_group:
  "fst ` set (add_group k v gs) = insert k (fst ` set gs)"
  by (induction gs) force+

lemma distinct_add_group:
  "distinct (map fst gs) \<Longrightarrow> distinct (map fst (add_group k v gs))"
proof (induction gs)
  case Nil
  then show ?case by simp
next
  case (Cons g gs)
  obtain k' s where g: "g = (k', s)" by (cases g)
  from Cons have "distinct (map fst (add_group k v gs))" by simp
  moreover have "fst ` set (add_group k v gs) = insert k (fst ` set gs)"
    by (rule keys_add_group)
  ultimately show ?case using Cons.prems g by auto
qed

lemma map_of_add_group:
  "map_of (add_group k v gs) =
     (map_of gs)(k \<mapsto> (case map_of gs k of None \<Rightarrow> v | Some s \<Rightarrow> s + v))"
  by (induction gs) (auto simp add: fun_eq_iff)

lemma group_total_Cons:
  "group_total key val (r # df) k =
     (if key r = k then val r + group_total key val df k else group_total key val df k)"
  by (simp add: group_total_def)

lemma group_total_Nil: "group_total key val [] k = 0"
  by (simp add: group_total_def)

lemma map_of_fold_add_group:
  "map_of (fold (\<lambda>r. add_group (key r) (val r)) df gs) k =
     (case map_of gs k of
        None \<Rightarrow> if k \<in> key ` set df then Some (group_total key val df k) else None
      | Some s \<Rightarrow> Some (s + group_total key val df k))"
proof (induction df arbitrary: gs)
  case Nil
  then show ?case by (simp add: group_total_Nil split: option.splits)
next
  case (Cons r df)
  show ?case
    by (simp add: Cons.IH map_of_add_group group_total_Cons split: option.splits)
qed

lemma keys_fold_add_group:
  "fst ` set (fold (\<lambda>r. add_group (key r) (val r)) df gs) = fst ` set gs \<union> key ` set df"
proof (induction df arbitrary: gs)
  case Nil
  then show ?case by simp
next
  case (Cons r df)
  show ?case
    by (simp add: Cons.IH keys_add_group)
qed

lemma distinct_fold_add_group:
  "distinct (map fst gs) \<Longrightarrow> distinct (map fst (fold (\<lambda>r. add_group (key r) (val r)) df gs))"
  by (induction df arbitrary: gs) (simp_all add: distinct_add_group)

lemma distinct_map_sort_key:
  "distinct (map f (sort_key f xs)) = distinct (map f xs)"
  by (induction xs) (simp_all add: distinct_insort_key)

lemma keys_groupby_sum:
  "fst ` set (groupby_sum key val df) = key ` set df"
  using keys_fold_add_group [of key val df "[]"] by (simp add: groupby_sum_def)

lemma distinct_groupby_sum:
  "distinct (map fst (groupby_sum key val df))"
proof -
  have "distinct (map fst (fold (\<lambda>r. add_group (key r) (val r)) df []))"
    by (rule distinct_fold_add_group) simp
  then show ?thesis
    by (simp add: groupby_sum_def distinct_map_sort_key)
qed

lemma sorted_groupby_sum:
  "sorted (map fst (groupby_sum key val df))"
  by (simp add: groupby_sum_def)

lemma strict_sorted_groupby_sum:
  "sorted_wrt (<) (map fst (groupby_sum key val df))"
  using sorted_groupby_sum [of key val df] distinct_groupby_sum [of key val df]
  by (simp add: strict_sorted_iff)

lemma map_of_groupby_sum:
  "map_of (groupby_sum key val df) k =
     (if k \<in> key ` set df then Some (group_total key val df k) else None)"
proof -
  let ?acc = "fold (\<lambda>r. add_group (key r) (val r)) df []"
  have d: "distinct (map fst ?acc)"
    by (rule distinct_fold_add_group) simp
  have "map_of (sort_key fst ?acc) = map_of ?acc"
    by (rule map_of_inject_set [THEN iffD2]) (simp_all add: d distinct_map_sort_key)
  then show ?thesis
    using map_of_fold_add_group [of key val df "[]" k] by (simp add: groupby_sum_def)
qed

lemma groupby_sum_values:
  "(k, s) \<in> set (groupby_sum key val df) \<Longrightarrow> s = group_total key val df k"
proof -
  assume "(k, s) \<in> set (groupby_sum key val df)"
  then have "map_of (groupby_sum key val df) k = Some s"
    using distinct_groupby_sum [of key val df] by simp
  then show ?thesis
    by (simp add: map_of_groupby_sum split: if_splits)
qed

lemma groupby_sum_eq_map:
  "groupby_sum key val df =
     map (\<lambda>k. (k, group_total key val df k)) (map fst (groupby_sum key val df))"
proof -
  have "map (\<lambda>g. (fst g, group_total key val df (fst g))) (groupby_sum key val df)
        = map (\<lambda>g. g) (groupby_sum key val df)"
    by (rule map_cong) (auto dest: groupby_sum_values)
  then show ?thesis by (simp add: comp_def)
qed

text \<open>
  C9. The yearly trend lists the years in strictly ascending order (so each year occurs
  once), the years listed are exactly the years that occur in the filtered rows, and each
  year comes with the sum of \<open>Passengers\<close> over the filtered rows of that year.
\<close>

theorem yearly_trend_sorted_one_per_year:
  "sorted_wrt (<) (map fst (yearly_passengers fdf))
   \<and> set (map fst (yearly_passengers fdf)) = Year ` set fdf
   \<and> yearly_passengers fdf =
       map (\<lambda>y. (y, sum_list (map Passengers (filter (\<lambda>r. Year r = y) fdf))))
           (map fst (yearly_passengers fdf))"
proof -
  have "yearly_passengers fdf =
          map (\<lambda>y. (y, group_total Year Passengers fdf y)) (map fst (yearly_passengers fdf))"
    unfolding yearly_passengers_def by (rule groupby_sum_eq_map)
  then show ?thesis
    using strict_sorted_groupby_sum [of Year Passengers fdf]
      keys_groupby_sum [of Year Passengers fdf]
    by (simp add: yearly_passengers_def group_total_def)
qed

lemma yearly_passengers_scenario:
  "yearly_passengers scenario_df = [(2020, 30), (2021, 5)]"
  by code_simp

section \<open>Busiest routes\<close>

lemma sorted_sort_values_desc:
  "sorted_wrt (\<lambda>a b. f b \<le> f a) (sort_values_desc f xs)"
proof -
  have "sorted_wrt (\<lambda>a b. f a \<le> f b) (sort_key f (rev xs))"
    using sorted_sort_key [of f "rev xs"] by (simp only: sorted_map)
  then show ?thesis
    by (simp add: sort_values_desc_def sorted_wrt_rev)
qed

lemma set_sort_values_desc: "set (sort_values_desc f xs) = set xs"
  by (simp add: sort_values_desc_def)

lemma length_sort_values_desc: "length (sort_values_desc f xs) = length xs"
  by (simp add: sort_values_desc_def)

lemma take_dominates_rest:
  assumes "sorted_wrt P xs" and "a \<in> set (take n xs)" and "b \<in> set xs" and "b \<notin> set (take n xs)"
  shows "P a b"
proof -
  have "set xs = set (take n xs) \<union> set (drop n xs)"
    by (metis append_take_drop_id set_append)
  with assms have "b \<in> set (drop n xs)" by simp
  moreover have "\<forall>x\<in>set (take n xs). \<forall>y\<in>set (drop n xs). P x y"
    using assms(1) sorted_wrt_append [of P "take n xs" "drop n xs"] by simp
  ultimately show ?thesis
    using assms(2) by blast
qed

text \<open>
  C5. The ranked routes are in descending order of \<open>Passengers\<close>, there are at most 10 of
  them, every ranked route has at least as many passengers as every route group that was
  left out, and every ranked route is one group of (\<open>Route\<close>, \<open>From\<close>, \<open>To\<close>, four
  coordinates) with the sum of \<open>Passengers\<close> over the filtered rows of that group.
\<close>

theorem top_routes_sorted_bounded:
  "sorted_wrt (\<lambda>a b. snd b \<le> snd a) (top_routes fdf)
   \<and> length (top_routes fdf) \<le> 10
   \<and> (\<forall>a \<in> set (top_routes fdf). \<forall>b \<in> set (route_data fdf) - set (top_routes fdf).
         snd b \<le> snd a)
   \<and> (\<forall>g \<in> set (top_routes fdf).
         g \<in> set (route_data fdf)
         \<and> fst g \<in> route_key ` set fdf
         \<and> snd g = sum_list (map Passengers (filter (\<lambda>r. route_key r = fst g) fdf)))"
proof -
  let ?s = "sort_values_desc snd (route_data fdf)"
  have s: "sorted_wrt (\<lambda>a b. snd b \<le> snd a) ?s"
    by (rule sorted_sort_values_desc)
  have 1: "sorted_wrt (\<lambda>a b. snd b \<le> snd a) (top_routes fdf)"
    using s by (simp add: top_routes_def)
  have 2: "length (top_routes fdf) \<le> 10"
    by (simp add: top_routes_def)
  have 3: "snd b \<le> snd a"
    if "a \<in> set (top_routes fdf)" and "b \<in> set (route_data fdf) - set (top_routes fdf)" for a b
    using take_dominates_rest [OF s, of a 10 b] that
    by (simp add: top_routes_def set_sort_values_desc)
  have sub: "g \<in> set (route_data fdf)" if "g \<in> set (top_routes fdf)" for g
    using that set_sort_values_desc [of snd "route_data fdf"]
    by (auto simp add: top_routes_def dest: in_set_takeD)
  have 4: "g \<in> set (route_data fdf) \<and> fst g \<in> route_key ` set fdf
      \<and> snd g = sum_list (map Passengers (filter (\<lambda>r. route_key r = fst g) fdf))"
    if "g \<in> set (top_routes fdf)" for g
  proof -
    have g: "g \<in> set (route_data fdf)" using that by (rule sub)
    then have "fst g \<in> fst ` set (groupby_sum route_key Passengers fdf)"
      by (simp add: route_data_def)
    then have k: "fst g \<in> route_key ` set fdf"
      by (simp only: keys_groupby_sum)
    have "(fst g, snd g) \<in> set (groupby_sum route_key Passengers fdf)"
      using g by (simp add: route_data_def)
    then have "snd g = group_total route_key Passengers fdf (fst g)"
      by (rule groupby_sum_values)
    with g k show ?thesis by (simp add: group_total_def)
  qed
  from 1 2 3 4 show ?thesis by blast
qed

lemma top_routes_eleven:
  "top_routes eleven_routes =
     [((''k'', ''f'', ''t'', 0, 0, 1, 1), 11), ((''j'', ''f'', ''t'', 0, 0, 1, 1), 10),
      ((''i'', ''f'', ''t'', 0, 0, 1, 1), 9), ((''h'', ''f'', ''t'', 0, 0, 1, 1), 8),
      ((''g'', ''f'', ''t'', 0, 0, 1, 1), 7), ((''f'', ''f'', ''t'', 0, 0, 1, 1), 6),
      ((''e'', ''f'', ''t'', 0, 0, 1, 1), 5), ((''d'', ''f'', ''t'', 0, 0, 1, 1), 4),
      ((''c'', ''f'', ''t'', 0, 0, 1, 1), 3), ((''b'', ''f'', ''t'', 0, 0, 1, 1), 2)]"
  by code_simp

lemma route_data_eleven:
  "route_data eleven_routes =
     [((''a'', ''f'', ''t'', 0, 0, 1, 1), 1), ((''b'', ''f'', ''t'', 0, 0, 1, 1), 2),
      ((''c'', ''f'', ''t'', 0, 0, 1, 1), 3), ((''d'', ''f'', ''t'', 0, 0, 1, 1), 4),
      ((''e'', ''f'', ''t'', 0, 0, 1, 1), 5), ((''f'', ''f'', ''t'', 0, 0, 1, 1), 6),
      ((''g'', ''f'', ''t'', 0, 0, 1, 1), 7), ((''h'', ''f'', ''t'', 0, 0, 1, 1), 8),
      ((''i'', ''f'', ''t'', 0, 0, 1, 1), 9), ((''j'', ''f'', ''t'', 0, 0, 1, 1), 10),
      ((''k'', ''f'', ''t'', 0, 0, 1, 1), 11)]"
  by code_simp

theorem top_routes_sorted_bounded_witness:
  "((''k'', ''f'', ''t'', 0, 0, 1, 1), 11) \<in> set (top_routes eleven_routes)
   \<and> ((''a'', ''f'', ''t'', 0, 0, 1, 1), 1) \<in> set (route_data eleven_routes) - set (top_routes eleven_routes)
   \<and> snd ((''a'', ''f'', ''t'', 0::real, 0::real, 1::real, 1::real), 1::int)
       \<le> snd ((''k'', ''f'', ''t'', 0::real, 0::real, 1::real, 1::real), 11::int)
   \<and> length (top_routes eleven_routes) = 10
   \<and> sorted_wrt (\<lambda>a b. snd b \<le> snd a) (top_routes eleven_routes)"
proof -
  have a: "((''k'', ''f'', ''t'', 0, 0, 1, 1), 11) \<in> set (top_routes eleven_routes)"
    by (simp add: top_routes_eleven)
  have b: "((''a'', ''f'', ''t'', 0, 0, 1, 1), 1)
             \<in> set (route_data eleven_routes) - set (top_routes eleven_routes)"
    by (simp add: top_routes_eleven route_data_eleven)
  have l: "length (top_routes eleven_routes) = 10"
    by (simp add: top_routes_eleven)
  from top_routes_sorted_bounded [of eleven_routes] a b l show ?thesis
    by blast
qed

section \<open>Line weights of the route map\<close>

lemma py_max_Max: "ps \<noteq> [] \<Longrightarrow> py_max ps = Inr (Max (set ps))"
proof -
  assume "ps \<noteq> []"
  then obtain x xs where ps: "ps = x # xs" by (cases ps) auto
  have "fold max xs x = Max (set (x # xs))"
    by (rule Max.set_eq_fold [symmetric])
  then show ?thesis by (simp add: ps)
qed

lemma line_weight_value:
  assumes "ps \<noteq> []" and "Max (set ps) \<noteq> 0"
  shows "line_weight p ps = Inr (2 + real_of_int p / real_of_int (Max (set ps)) * 5)"
  using assms by (simp add: line_weight_def py_max_Max)

lemma weight_bounds:
  fixes p m :: int
  assumes "0 \<le> p" and "p \<le> m" and "0 < m"
  shows "2 \<le> 2 + real_of_int p / real_of_int m * 5"
    and "2 + real_of_int p / real_of_int m * 5 \<le> 7"
    and "2 < 2 + real_of_int p / real_of_int m * 5 \<longleftrightarrow> 0 < p"
proof -
  define q where "q = real_of_int p / real_of_int m"
  have m: "0 < real_of_int m" using assms by simp
  have q0: "0 \<le> q"
    using assms by (simp add: q_def)
  have q1: "q \<le> 1"
    using assms m by (simp add: q_def divide_le_eq_1)
  have qp: "0 < q \<longleftrightarrow> 0 < p"
    using m by (simp add: q_def zero_less_divide_iff)
  from q0 have "2 \<le> 2 + q * 5" by simp
  then show "2 \<le> 2 + real_of_int p / real_of_int m * 5"
    by (simp only: q_def)
  from q1 have "2 + q * 5 \<le> 7" by simp
  then show "2 + real_of_int p / real_of_int m * 5 \<le> 7"
    by (simp only: q_def)
  from qp have "2 < 2 + q * 5 \<longleftrightarrow> 0 < p" by simp
  then show "2 < 2 + real_of_int p / real_of_int m * 5 \<longleftrightarrow> 0 < p"
    by (simp only: q_def)
qed

lemma map_lines_weights:
  assumes "set gs \<subseteq> set tr" and "Max (snd ` set tr) \<noteq> 0"
  shows "\<exists>ls. map_lines tr gs = Inr ls \<and> map line_route ls = gs
           \<and> map weight ls =
               map (\<lambda>g. 2 + real_of_int (snd g) / real_of_int (Max (snd ` set tr)) * 5) gs"
  using assms(1)
proof (induction gs)
  case Nil
  then show ?case by simp
next
  case (Cons g gs)
  obtain route frm to a b c d p where g: "g = ((route, frm, to, a, b, c, d), p)"
    by (cases g) auto
  from Cons.prems have ne: "map snd tr \<noteq> []" by auto
  have w: "line_weight p (map snd tr)
             = Inr (2 + real_of_int p / real_of_int (Max (snd ` set tr)) * 5)"
    using line_weight_value [OF ne, of p] assms(2) by simp
  from Cons obtain ls where ls: "map_lines tr gs = Inr ls" "map line_route ls = gs"
    "map weight ls = map (\<lambda>g. 2 + real_of_int (snd g) / real_of_int (Max (snd ` set tr)) * 5) gs"
    by auto
  show ?case
    by (simp add: g w ls)
qed

text \<open>
  C7, as the code has it. For a non-empty set of ranked routes whose passenger counts are
  not negative and whose largest count is positive, the loop of the map gives every route
  the weight \<open>2 + passengers / max * 5\<close>; the weight lies between 2 and 7, both included,
  and exceeds 2 exactly when the route has passengers. With counts 100, 50 and 10 the
  weight for 50 is 4.5. With no counts at all the expression of line 181 is 2, and the
  loop draws no line.
\<close>

theorem line_weight_range:
  "(tr \<noteq> [] \<and> (\<forall>g \<in> set tr. 0 \<le> snd g) \<and> 0 < Max (snd ` set tr) \<longrightarrow>
      (\<exists>ls. map_lines tr tr = Inr ls \<and> map line_route ls = tr
         \<and> (\<forall>l \<in> set ls.
               weight l = 2 + real_of_int (snd (line_route l)) / real_of_int (Max (snd ` set tr)) * 5
               \<and> 2 \<le> weight l \<and> weight l \<le> 7
               \<and> (2 < weight l \<longleftrightarrow> 0 < snd (line_route l)))))
   \<and> line_weight 50 [100, 50, 10] = Inr (9 / 2)
   \<and> line_weight p [] = Inr 2
   \<and> map_lines [] [] = Inr []"
proof -
  have main: "\<exists>ls. map_lines tr tr = Inr ls \<and> map line_route ls = tr
         \<and> (\<forall>l \<in> set ls.
               weight l = 2 + real_of_int (snd (line_route l)) / real_of_int (Max (snd ` set tr)) * 5
               \<and> 2 \<le> weight l \<and> weight l \<le> 7
               \<and> (2 < weight l \<longleftrightarrow> 0 < snd (line_route l)))"
    if ne: "tr \<noteq> []" and nonneg: "\<forall>g \<in> set tr. 0 \<le> snd g" and pos: "0 < Max (snd ` set tr)"
  proof -
    let ?m = "Max (snd ` set tr)"
    from pos have "?m \<noteq> 0" by simp
    with map_lines_weights [of tr tr] obtain ls where
      ls: "map_lines tr tr = Inr ls" "map line_route ls = tr"
        "map weight ls = map (\<lambda>g. 2 + real_of_int (snd g) / real_of_int ?m * 5) tr"
      by auto
    have "weight l = 2 + real_of_int (snd (line_route l)) / real_of_int ?m * 5
          \<and> 2 \<le> weight l \<and> weight l \<le> 7 \<and> (2 < weight l \<longleftrightarrow> 0 < snd (line_route l))"
      if l: "l \<in> set ls" for l
    proof -
      have "map weight ls = map (\<lambda>l. 2 + real_of_int (snd (line_route l)) / real_of_int ?m * 5) ls"
        using ls(3) by (simp add: ls(2) [symmetric] comp_def)
      with l have w: "weight l = 2 + real_of_int (snd (line_route l)) / real_of_int ?m * 5"
        by simp
      from l have mem: "line_route l \<in> set tr"
        using ls(2) by (metis imageI set_map)
      then have 0: "0 \<le> snd (line_route l)" using nonneg by simp
      from mem have le: "snd (line_route l) \<le> ?m" by simp
      show ?thesis
        using weight_bounds [OF 0 le pos] w by simp
    qed
    with ls show ?thesis by blast
  qed
  have ex: "line_weight 50 [100, 50, 10] = Inr (9 / 2)"
    by (simp add: line_weight_def)
  have emp: "line_weight p [] = Inr 2"
    by (simp add: line_weight_def)
  from main ex emp show ?thesis by simp
qed

lemma top_routes_spec_weights:
  "top_routes spec_weights_df =
     [((''r1'', ''f'', ''t'', 0, 0, 1, 1), 100), ((''r2'', ''f'', ''t'', 0, 0, 1, 1), 50),
      ((''r3'', ''f'', ''t'', 0, 0, 1, 1), 10)]"
  by code_simp

lemma top_routes_zero_route:
  "top_routes zero_route_df =
     [((''r1'', ''f'', ''t'', 0, 0, 1, 1), 100), ((''r2'', ''f'', ''t'', 0, 0, 1, 1), 0)]"
  by code_simp

theorem line_weight_range_witness:
  "top_routes spec_weights_df \<noteq> []
   \<and> map snd (top_routes spec_weights_df) = [100, 50, 10]
   \<and> 0 < Max (snd ` set (top_routes spec_weights_df))
   \<and> map_lines (top_routes spec_weights_df) (top_routes spec_weights_df) =
       Inr [\<lparr>line_route = ((''r1'', ''f'', ''t'', 0, 0, 1, 1), 100), weight = 7,
              midpoint = (1 / 2, 1 / 2)\<rparr>,
            \<lparr>line_route = ((''r2'', ''f'', ''t'', 0, 0, 1, 1), 50), weight = 9 / 2,
              midpoint = (1 / 2, 1 / 2)\<rparr>,
            \<lparr>line_route = ((''r3'', ''f'', ''t'', 0, 0, 1, 1), 10), weight = 5 / 2,
              midpoint = (1 / 2, 1 / 2)\<rparr>]
   \<and> 2 \<le> (9 / 2 :: real) \<and> (9 / 2 :: real) \<le> 7"
proof -
  let ?tr = "top_routes spec_weights_df"
  have h: "?tr \<noteq> [] \<and> (\<forall>g \<in> set ?tr. 0 \<le> snd g) \<and> 0 < Max (snd ` set ?tr)"
    by (simp add: top_routes_spec_weights)
  from line_weight_range [of ?tr 0] h obtain ls where
    ls: "map_lines ?tr ?tr = Inr ls" "\<forall>l\<in>set ls. 2 \<le> weight l \<and> weight l \<le> 7"
    by blast
  have ev: "map_lines ?tr ?tr =
       Inr [\<lparr>line_route = ((''r1'', ''f'', ''t'', 0, 0, 1, 1), 100), weight = 7,
              midpoint = (1 / 2, 1 / 2)\<rparr>,
            \<lparr>line_route = ((''r2'', ''f'', ''t'', 0, 0, 1, 1), 50), weight = 9 / 2,
              midpoint = (1 / 2, 1 / 2)\<rparr>,
            \<lparr>line_route = ((''r3'', ''f'', ''t'', 0, 0, 1, 1), 10), weight = 5 / 2,
              midpoint = (1 / 2, 1 / 2)\<rparr>]"
    by (simp add: top_routes_spec_weights line_weight_def)
  with ls have "2 \<le> (9 / 2 :: real) \<and> (9 / 2 :: real) \<le> 7"
    by auto
  with h ev show ?thesis
    by (simp add: top_routes_spec_weights)
qed

text \<open>
  C7 as stated fails for a route without passengers: its weight is 2, which is not in the
  interval from 2 (excluded) to 7.
\<close>

theorem line_weight_zero_passengers_counterexample:
  "map_lines (top_routes zero_route_df) (top_routes zero_route_df) =
     Inr [\<lparr>line_route = ((''r1'', ''f'', ''t'', 0, 0, 1, 1), 100), weight = 7,
            midpoint = (1 / 2, 1 / 2)\<rparr>,
          \<lparr>line_route = ((''r2'', ''f'', ''t'', 0, 0, 1, 1), 0), weight = 2,
            midpoint = (1 / 2, 1 / 2)\<rparr>]
   \<and> \<not> 2 < weight \<lparr>line_route = ((''r2'', ''f'', ''t'', 0, 0, 1, 1), 0), weight = 2,
                      midpoint = (1 / 2, 1 / 2)\<rparr>"
  by (simp add: top_routes_zero_route line_weight_def)

section \<open>Empty selections and the blocks of the page\<close>

text \<open>
  C2. With an empty selection of years the filtered frame is empty, \<open>idxmax\<close> raises
  \<open>ValueError\<close> on line 67, and nothing in the script catches it: the key metrics block
  and the page end in that exception.
\<close>

theorem top_country_empty_uncaught:
  "top_country [] = Inl (ValueError ''attempt to get argmax of an empty sequence'')
   \<and> key_metrics (filtered_df rows [] ts)
       = ([Header ''Key Metrics''],
          Some (ValueError ''attempt to get argmax of an empty sequence''))
   \<and> snd (dashboard (Frame rows) [] ts)
       = Some (ValueError ''attempt to get argmax of an empty sequence'')"
proof -
  have f: "filtered_df rows [] ts = []"
    by (simp add: filtered_df_filter)
  have t: "top_country [] = Inl (ValueError ''attempt to get argmax of an empty sequence'')"
    by (simp add: top_country_def groupby_sum_def)
  have k: "key_metrics [] = ([Header ''Key Metrics''],
          Some (ValueError ''attempt to get argmax of an empty sequence''))"
    by (simp add: key_metrics_def t)
  show ?thesis
    by (simp add: f t k dashboard_def)
qed

text \<open>
  C3. Only the bar chart and the map are wrapped in \<open>try\<close>/\<open>except\<close>. In the first run
  below the exception of the key metrics block ends the page before the data table, the
  line chart, the bar chart, the ranked table and the map. In the second run the map block
  fails (the only route has no passengers, so line 181 divides by zero); its handler shows
  the error in place of the map and every other block is shown.
\<close>

theorem empty_selection_stops_page:
  "script mongo_world [] [''A''] =
     ([Title ''Global Flight Route Analysis'', Markdown ''Flight Route Analysis app'',
       Success ''Data loaded from MongoDB'', SidebarHeader ''Filter Options'',
       Multiselect_int ''Select Year(s)'' [2020, 2021],
       Multiselect_str ''Select Route Type(s)'' [''A'', ''B''],
       Header ''Key Metrics''],
      Some (ValueError ''attempt to get argmax of an empty sequence''))
   \<and> script idle_routes_world [2020] [''A''] =
     ([Title ''Global Flight Route Analysis'', Markdown ''Flight Route Analysis app'',
       Success ''Data loaded from MongoDB'', SidebarHeader ''Filter Options'',
       Multiselect_int ''Select Year(s)'' [2020],
       Multiselect_str ''Select Route Type(s)'' [''A''],
       Header ''Key Metrics'', Metric_int ''Total Passengers'' 0,
       Metric_int ''Total Routes'' 1, Metric_str ''Top Origin Country'' ''X'',
       Header ''Flight Routes Data'', Dataframe [mk_row ''r1'' ''X'' 2020 ''A'' 0],
       Header ''Passenger Trends by Year'', Pyplot_line [(2020, 0)],
       Header ''Top 5 Departure Countries by Route Type'',
       Pyplot_bar \<lparr>columns = [''A''], records = [(''X'', [Some 0])]\<rparr>,
       Header ''Top 10 Busiest Routes'', Table [(''r1'', 0)],
       Header ''Interactive Flight Routes Map'',
       Error ''Error rendering map: division by zero''],
      None)"
  by code_simp

section \<open>Loading the data\<close>

text \<open>
  C4, as the code has it. When the database answers, its documents are the data and the
  file is not looked at. When the database fails and the file exists and can be read, the
  file is the data. When the database fails and there is no file, the loader returns
  \<open>None\<close>; the page then holds its title and description, the loader's warning, the
  loader's error message and the caller's error message, and nothing else: two error
  messages.
\<close>

theorem load_data_fallback:
  "(mongo w = Inr docs \<longrightarrow>
      load_data w = ([Success ''Data loaded from MongoDB''],
                     Inr (Some (if docs = [] then NoColumns else Frame docs))))
   \<and> (mongo w = Inl e \<and> csv_exists w \<and> read_csv w = Inr data \<longrightarrow>
      load_data w = ([Warning (''Could not connect to MongoDB: '' @ str_of e),
                      Success ''Data loaded from CSV''],
                     Inr (Some (Frame data))))
   \<and> (mongo w = Inl e \<and> \<not> csv_exists w \<longrightarrow>
      snd (load_data w) = Inr None
      \<and> script w selected_year selected_type =
          (page_top @
           [Warning (''Could not connect to MongoDB: '' @ str_of e),
            Error ''No data source available. Please ensure MongoDB is running or provide a CSV file.'',
            Error ''Unable to load data for visualization.''],
           None)
      \<and> length (filter is_error (fst (script w selected_year selected_type))) = 2)"
  by (simp add: load_data_def script_def page_top_def)

theorem load_data_fallback_witness:
  "mongo mongo_world = Inr scenario_df
   \<and> load_data mongo_world = ([Success ''Data loaded from MongoDB''], Inr (Some (Frame scenario_df)))
   \<and> mongo csv_world = Inl (External ''timed out'') \<and> csv_exists csv_world
   \<and> read_csv csv_world = Inr scenario_df
   \<and> load_data csv_world = ([Warning ''Could not connect to MongoDB: timed out'',
                               Success ''Data loaded from CSV''],
                              Inr (Some (Frame scenario_df)))
   \<and> mongo unavailable_world = Inl (External ''timed out'') \<and> \<not> csv_exists unavailable_world
   \<and> snd (load_data unavailable_world) = Inr None
   \<and> length (filter is_error (fst (script unavailable_world [2020] [''A'']))) = 2"
proof -
  have a: "mongo mongo_world = Inr scenario_df"
    by (simp add: mongo_world_def)
  have b: "mongo csv_world = Inl (External ''timed out'') \<and> csv_exists csv_world
           \<and> read_csv csv_world = Inr scenario_df"
    by (simp add: csv_world_def)
  have c: "mongo unavailable_world = Inl (External ''timed out'') \<and> \<not> csv_exists unavailable_world"
    by (simp add: unavailable_world_def)
  have ne: "scenario_df \<noteq> []"
    by (simp add: scenario_df_def)
  from load_data_fallback [of mongo_world scenario_df "External ''timed out''" scenario_df "[2020]" "[''A'']"]
    load_data_fallback [of csv_world scenario_df "External ''timed out''" scenario_df "[2020]" "[''A'']"]
    load_data_fallback [of unavailable_world scenario_df "External ''timed out''" scenario_df "[2020]" "[''A'']"]
    a b c ne
  show ?thesis by (simp add: page_top_def)
qed

text \<open>
  C4 as stated fails: with both sources unavailable the page shows two error messages,
  not exactly one.
\<close>

theorem unavailable_two_errors_counterexample:
  "script unavailable_world [2020] [''A''] =
     ([Title ''Global Flight Route Analysis'', Markdown ''Flight Route Analysis app'',
       Warning ''Could not connect to MongoDB: timed out'',
       Error ''No data source available. Please ensure MongoDB is running or provide a CSV file.'',
       Error ''Unable to load data for visualization.''],
      None)
   \<and> length (filter is_error (fst (script unavailable_world [2020] [''A'']))) \<noteq> 1"
  by (simp add: script_def load_data_def unavailable_world_def page_top_def)

section \<open>Departure countries by route type\<close>

lemma insort_key_map:
  "insort_key k (f x) (map f ys) = map f (insort_key (\<lambda>y. k (f y)) x ys)"
  by (induction ys) simp_all

lemma sort_key_map:
  "sort_key k (map f xs) = map f (sort_key (\<lambda>y. k (f y)) xs)"
  by (induction xs) (simp_all add: insort_key_map)

lemma sort_values_desc_map:
  "sort_values_desc k (map f xs) = map f (sort_values_desc (\<lambda>y. k (f y)) xs)"
  by (simp add: sort_values_desc_def rev_map sort_key_map)

lemma sorted_unique_props:
  "sorted (sorted_unique xs)" "distinct (sorted_unique xs)" "set (sorted_unique xs) = set xs"
  by (simp_all add: sorted_unique_def)

lemma sorted_unique_cong:
  "set xs = set ys \<Longrightarrow> sorted_unique xs = sorted_unique ys"
  by (rule sorted_distinct_set_unique) (simp_all add: sorted_unique_props)

lemma sum_list_add_at:
  fixes f :: "'a \<Rightarrow> int"
  shows "distinct ts \<Longrightarrow> a \<in> set ts \<Longrightarrow>
     sum_list (map (\<lambda>t. if a = t then v + f t else f t) ts) = v + sum_list (map f ts)"
proof (induction ts)
  case Nil
  then show ?case by simp
next
  case (Cons t ts)
  show ?case
  proof (cases "a = t")
    case True
    with Cons.prems have "a \<notin> set ts" by simp
    then have "map (\<lambda>t. if a = t then v + f t else f t) ts = map f ts"
      by (intro map_cong) auto
    then have "sum_list (map (\<lambda>t. if a = t then v + f t else f t) ts) = sum_list (map f ts)"
      by (rule arg_cong)
    with True show ?thesis by simp
  next
    case False
    with Cons show ?thesis by simp
  qed
qed

lemma sum_over_groups:
  fixes val :: "'r \<Rightarrow> int"
  assumes "distinct ts" and "g ` set xs \<subseteq> set ts"
  shows "sum_list (map (\<lambda>t. sum_list (map val (filter (\<lambda>r. P r \<and> g r = t) xs))) ts)
         = sum_list (map val (filter P xs))"
  using assms(2)
proof (induction xs)
  case Nil
  then show ?case by simp
next
  case (Cons r xs)
  then have IH: "sum_list (map (\<lambda>t. sum_list (map val (filter (\<lambda>r. P r \<and> g r = t) xs))) ts)
         = sum_list (map val (filter P xs))"
    and mem: "g r \<in> set ts" by simp_all
  show ?case
  proof (cases "P r")
    case True
    have "(\<lambda>t. sum_list (map val (filter (\<lambda>r. P r \<and> g r = t) (r # xs))))
          = (\<lambda>t. if g r = t then val r + sum_list (map val (filter (\<lambda>r. P r \<and> g r = t) xs))
                  else sum_list (map val (filter (\<lambda>r. P r \<and> g r = t) xs)))"
      using True by (simp add: fun_eq_iff)
    then show ?thesis
      using True IH sum_list_add_at [OF assms(1) mem, of "val r"
          "\<lambda>t. sum_list (map val (filter (\<lambda>r. P r \<and> g r = t) xs))"]
      by simp
  next
    case False
    then show ?thesis using IH by simp
  qed
qed

lemma group_total_absent:
  "k \<notin> key ` set df \<Longrightarrow> group_total key val df k = 0"
proof -
  assume "k \<notin> key ` set df"
  then have "filter (\<lambda>r. key r = k) df = []"
    by (auto simp add: filter_empty_conv)
  then show ?thesis by (simp add: group_total_def)
qed

lemma filled_cell:
  "(case map_of (groupby_sum key val df) k of None \<Rightarrow> Some 0 | Some y \<Rightarrow> Some y)
     = Some (group_total key val df k)"
  by (simp add: map_of_groupby_sum group_total_absent)


lemma zipped_cells:
  "map snd (filter (\<lambda>(cn, x). P cn) (zip cs (map f cs))) = map f (filter P cs)"
  by (induction cs) simp_all

lemma map_zipped_cells:
  "map (\<lambda>(cn, x). F cn x) (zip cs (map f cs)) = map (\<lambda>t. F t (f t)) cs"
  by (induction cs) simp_all

lemma cell_appended:
  "n \<notin> set cs \<Longrightarrow> cell (cs @ [n]) n (map g cs @ [v]) = v"
proof -
  assume n: "n \<notin> set cs"
  have "zip (cs @ [n]) (map g cs @ [v]) = zip cs (map g cs) @ [(n, v)]"
    by simp
  moreover have "map_of (zip cs (map g cs)) n = None"
    using n by (simp add: map_of_zip_map)
  ultimately show ?thesis
    by (simp only: cell_def map_of_append map_add_def) simp
qed

lemma cell_present:
  "n \<in> set cs \<Longrightarrow> cell cs n (map f cs) = f n"
  by (simp add: cell_def map_of_zip_map)

lemma sum_axis1_filled:
  "sum_axis1 \<lparr>columns = cs, records = map (\<lambda>c. (c, map (\<lambda>t. Some (p c t)) cs)) idx\<rparr>
     = map (\<lambda>c. sum_list (map (p c) cs)) idx"
  by (simp add: sum_axis1_def comp_def)

lemma setitem_new:
  "n \<notin> set cs \<Longrightarrow>
     setitem n (map h idx) \<lparr>columns = cs, records = map (\<lambda>c. (c, map (g c) cs)) idx\<rparr>
       = \<lparr>columns = cs @ [n], records = map (\<lambda>c. (c, map (g c) cs @ [Some (h c)])) idx\<rparr>"
  by (simp add: setitem_def zip_map_map zip_same_conv_map comp_def)

lemma setitem_overwrite:
  "n \<in> set cs \<Longrightarrow>
     setitem n (map h idx) \<lparr>columns = cs, records = map (\<lambda>c. (c, map (g c) cs)) idx\<rparr>
       = \<lparr>columns = cs,
          records = map (\<lambda>c. (c, map (\<lambda>t. if t = n then Some (h c) else g c t) cs)) idx\<rparr>"
  by (simp add: setitem_def zip_map_map zip_same_conv_map comp_def map_zipped_cells)

lemma sort_values_frame_total:
  assumes "n \<in> set cs" and "\<And>c. cell cs n (w c) = Some (h c)"
  shows "sort_values_frame n \<lparr>columns = cs, records = map (\<lambda>c. (c, w c)) idx\<rparr>
           = Inr \<lparr>columns = cs, records = map (\<lambda>c. (c, w c)) (sort_values_desc h idx)\<rparr>"
  using assms by (simp add: sort_values_frame_def sort_values_desc_map filter_map comp_def)

lemma drop_columns_new:
  assumes "n \<notin> set cs"
  shows "drop_columns n \<lparr>columns = cs @ [n], records = map (\<lambda>c. (c, map (g c) cs @ [v c])) idx\<rparr>
           = Inr \<lparr>columns = filter (\<lambda>t. t \<noteq> n) cs,
                  records = map (\<lambda>c. (c, map (g c) (filter (\<lambda>t. t \<noteq> n) cs))) idx\<rparr>"
proof -
  have f: "filter (\<lambda>t. t \<noteq> n) cs = cs"
    using assms by (auto simp add: filter_id_conv)
  have "map snd (filter (\<lambda>(cn, x). cn \<noteq> n) (zip (cs @ [n]) (map (g c) cs @ [v c])))
        = map (g c) cs" for c
  proof -
    have "zip (cs @ [n]) (map (g c) cs @ [v c]) = zip cs (map (g c) cs) @ [(n, v c)]"
      by simp
    then show ?thesis
      using zipped_cells [of "\<lambda>t. t \<noteq> n" cs "g c"] by (simp add: f)
  qed
  then show ?thesis
    by (simp add: drop_columns_def f comp_def)
qed

lemma drop_columns_overwritten:
  assumes "n \<in> set cs"
  shows "drop_columns n
           \<lparr>columns = cs,
            records = map (\<lambda>c. (c, map (\<lambda>t. if t = n then v c else g c t) cs)) idx\<rparr>
           = Inr \<lparr>columns = filter (\<lambda>t. t \<noteq> n) cs,
                  records = map (\<lambda>c. (c, map (g c) (filter (\<lambda>t. t \<noteq> n) cs))) idx\<rparr>"
proof -
  have "map snd (filter (\<lambda>(cn, x). cn \<noteq> n)
                   (zip cs (map (\<lambda>t. if t = n then v c else g c t) cs)))
        = map (g c) (filter (\<lambda>t. t \<noteq> n) cs)" for c
  proof -
    have "map (\<lambda>t. if t = n then v c else g c t) (filter (\<lambda>t. t \<noteq> n) cs)
          = map (g c) (filter (\<lambda>t. t \<noteq> n) cs)"
      by (rule map_cong) auto
    then show ?thesis
      by (simp only: zipped_cells)
  qed
  then show ?thesis
    using assms by (simp add: drop_columns_def comp_def)
qed

lemma unstack_fillna:
  "fillna 0 (unstack (groupby_sum country_type Passengers fdf)) =
     \<lparr>columns = sorted_unique (map Type fdf),
      records = map (\<lambda>c. (c, map (\<lambda>t. Some (group_total country_type Passengers fdf (c, t)))
                                (sorted_unique (map Type fdf))))
                    (sorted_unique (map From_Country fdf))\<rparr>"
proof -
  let ?G = "groupby_sum country_type Passengers fdf"
  have k: "fst ` set ?G = country_type ` set fdf"
    by (rule keys_groupby_sum)
  have "set (map (snd \<circ> fst) ?G) = snd ` (fst ` set ?G)"
    by (simp add: image_comp)
  then have "set (map (snd \<circ> fst) ?G) = set (map Type fdf)"
    by (simp add: k image_comp comp_def country_type_def)
  then have cs: "sorted_unique (map (snd \<circ> fst) ?G) = sorted_unique (map Type fdf)"
    by (rule sorted_unique_cong)
  have "set (map (fst \<circ> fst) ?G) = fst ` (fst ` set ?G)"
    by (simp add: image_comp)
  then have "set (map (fst \<circ> fst) ?G) = set (map From_Country fdf)"
    by (simp add: k image_comp comp_def country_type_def)
  then have idx: "sorted_unique (map (fst \<circ> fst) ?G) = sorted_unique (map From_Country fdf)"
    by (rule sorted_unique_cong)
  have "unstack ?G =
          \<lparr>columns = sorted_unique (map Type fdf),
           records = map (\<lambda>c. (c, map (\<lambda>t. map_of ?G (c, t)) (sorted_unique (map Type fdf))))
                         (sorted_unique (map From_Country fdf))\<rparr>"
    unfolding unstack_def Let_def cs idx ..
  then show ?thesis
    by (simp add: fillna_def filled_cell comp_def)
qed

lemma row_total:
  "sum_list (map (\<lambda>t. group_total country_type Passengers fdf (c, t))
                 (sorted_unique (map Type fdf)))
     = group_total From_Country Passengers fdf c"
proof -
  have "sum_list (map (\<lambda>t. sum_list (map Passengers
            (filter (\<lambda>r. From_Country r = c \<and> Type r = t) fdf))) (sorted_unique (map Type fdf)))
        = sum_list (map Passengers (filter (\<lambda>r. From_Country r = c) fdf))"
    by (rule sum_over_groups) (simp_all add: sorted_unique_props)
  then show ?thesis
    by (simp add: group_total_def country_type_def)
qed

lemma top_departure_countries_eq:
  "top_departure_countries fdf =
     Inr \<lparr>columns = filter (\<lambda>t. t \<noteq> ''Total'') (sorted_unique (map Type fdf)),
          records =
            map (\<lambda>c. (c, map (\<lambda>t. Some (group_total country_type Passengers fdf (c, t)))
                            (filter (\<lambda>t. t \<noteq> ''Total'') (sorted_unique (map Type fdf)))))
                (take 5 (sort_values_desc (group_total From_Country Passengers fdf)
                           (sorted_unique (map From_Country fdf))))\<rparr>"
proof -
  let ?cs = "sorted_unique (map Type fdf)"
  let ?idx = "sorted_unique (map From_Country fdf)"
  let ?p = "\<lambda>c t. Some (group_total country_type Passengers fdf (c, t))"
  let ?h = "group_total From_Country Passengers fdf"
  let ?F = "\<lparr>columns = ?cs, records = map (\<lambda>c. (c, map (?p c) ?cs)) ?idx\<rparr>"
  have F: "fillna 0 (unstack (groupby_sum country_type Passengers fdf)) = ?F"
    by (rule unstack_fillna)
  have S: "sum_axis1 ?F = map ?h ?idx"
    by (simp add: sum_axis1_filled row_total)
  show ?thesis
  proof (cases "''Total'' \<in> set ?cs")
    case True
    let ?w = "\<lambda>c. map (\<lambda>t. if t = ''Total'' then Some (?h c) else ?p c t) ?cs"
    have 1: "setitem ''Total'' (map ?h ?idx) ?F
               = \<lparr>columns = ?cs, records = map (\<lambda>c. (c, ?w c)) ?idx\<rparr>"
      using True by (rule setitem_overwrite)
    have c: "cell ?cs ''Total'' (?w c) = Some (?h c)" for c
      using True by (simp add: cell_present)
    have 2: "sort_values_frame ''Total'' \<lparr>columns = ?cs, records = map (\<lambda>c. (c, ?w c)) ?idx\<rparr>
               = Inr \<lparr>columns = ?cs, records = map (\<lambda>c. (c, ?w c)) (sort_values_desc ?h ?idx)\<rparr>"
      using True c by (rule sort_values_frame_total)
    have 3: "head 5 \<lparr>columns = ?cs, records = map (\<lambda>c. (c, ?w c)) (sort_values_desc ?h ?idx)\<rparr>
               = \<lparr>columns = ?cs,
                  records = map (\<lambda>c. (c, ?w c)) (take 5 (sort_values_desc ?h ?idx))\<rparr>"
      by (simp add: head_def take_map)
    have 4: "drop_columns ''Total''
               \<lparr>columns = ?cs,
                records = map (\<lambda>c. (c, ?w c)) (take 5 (sort_values_desc ?h ?idx))\<rparr>
             = Inr \<lparr>columns = filter (\<lambda>t. t \<noteq> ''Total'') ?cs,
                    records = map (\<lambda>c. (c, map (?p c) (filter (\<lambda>t. t \<noteq> ''Total'') ?cs)))
                                  (take 5 (sort_values_desc ?h ?idx))\<rparr>"
      using True by (rule drop_columns_overwritten)
    show ?thesis
      unfolding top_departure_countries_def Let_def F S 1 2 sum.case 3 4 ..
  next
    case False
    let ?w = "\<lambda>c. map (?p c) ?cs @ [Some (?h c)]"
    have 1: "setitem ''Total'' (map ?h ?idx) ?F
               = \<lparr>columns = ?cs @ [''Total''], records = map (\<lambda>c. (c, ?w c)) ?idx\<rparr>"
      using False by (rule setitem_new)
    have c: "cell (?cs @ [''Total'']) ''Total'' (?w c) = Some (?h c)" for c
      using False by (rule cell_appended)
    have m: "''Total'' \<in> set (?cs @ [''Total''])" by simp
    have 2: "sort_values_frame ''Total''
               \<lparr>columns = ?cs @ [''Total''], records = map (\<lambda>c. (c, ?w c)) ?idx\<rparr>
               = Inr \<lparr>columns = ?cs @ [''Total''],
                      records = map (\<lambda>c. (c, ?w c)) (sort_values_desc ?h ?idx)\<rparr>"
      using m c by (rule sort_values_frame_total)
    have 3: "head 5 \<lparr>columns = ?cs @ [''Total''],
                     records = map (\<lambda>c. (c, ?w c)) (sort_values_desc ?h ?idx)\<rparr>
               = \<lparr>columns = ?cs @ [''Total''],
                  records = map (\<lambda>c. (c, ?w c)) (take 5 (sort_values_desc ?h ?idx))\<rparr>"
      by (simp add: head_def take_map)
    have 4: "drop_columns ''Total''
               \<lparr>columns = ?cs @ [''Total''],
                records = map (\<lambda>c. (c, ?w c)) (take 5 (sort_values_desc ?h ?idx))\<rparr>
             = Inr \<lparr>columns = filter (\<lambda>t. t \<noteq> ''Total'') ?cs,
                    records = map (\<lambda>c. (c, map (?p c) (filter (\<lambda>t. t \<noteq> ''Total'') ?cs)))
                                  (take 5 (sort_values_desc ?h ?idx))\<rparr>"
      using False by (rule drop_columns_new)
    show ?thesis
      unfolding top_departure_countries_def Let_def F S 1 2 sum.case 3 4 ..
  qed
qed


lemma top_departure_countries_six:
  "top_departure_countries six_countries_df =
     Inr \<lparr>columns = [''dom'', ''int''],
          records = [(''E'', [Some 50, Some 0]), (''D'', [Some 40, Some 0]),
                     (''C'', [Some 0, Some 30]), (''B'', [Some 20, Some 0]),
                     (''A'', [Some 12, Some 5])]\<rparr>"
  by code_simp

text \<open>
  C6. The three lines never raise and give a frame with these properties. Its columns are
  the route types of the filtered rows in ascending order, without the label \<open>Total\<close>: the
  helper column is gone. Its rows are countries of the filtered rows, each once, five of
  them or all when there are fewer; they are in descending order of the row total, and no
  country that was left out has a larger row total than one that was kept. The row total
  of a country is the sum of its (country, type) sums over all types, which is the sum of
  \<open>Passengers\<close> over the rows of that country. Every cell holds the sum of \<open>Passengers\<close>
  over the rows of its country and type; no cell is missing, and a cell whose (country,
  type) pair has no row holds 0.
\<close>

theorem top_departure_countries_pivot:
  "\<exists>f. top_departure_countries fdf = Inr f
     \<and> columns f = filter (\<lambda>t. t \<noteq> ''Total'') (sorted_unique (map Type fdf))
     \<and> ''Total'' \<notin> set (columns f)
     \<and> length (records f) = min 5 (card (From_Country ` set fdf))
     \<and> distinct (map fst (records f))
     \<and> set (map fst (records f)) \<subseteq> From_Country ` set fdf
     \<and> sorted_wrt (\<lambda>a b. group_total From_Country Passengers fdf b
                             \<le> group_total From_Country Passengers fdf a)
          (map fst (records f))
     \<and> (\<forall>c \<in> set (map fst (records f)).
          \<forall>c' \<in> From_Country ` set fdf - set (map fst (records f)).
            group_total From_Country Passengers fdf c'
              \<le> group_total From_Country Passengers fdf c)
     \<and> (\<forall>c. group_total From_Country Passengers fdf c
              = sum_list (map (\<lambda>t. group_total country_type Passengers fdf (c, t))
                              (sorted_unique (map Type fdf))))
     \<and> (\<forall>(c, xs) \<in> set (records f).
          xs = map (\<lambda>t. Some (sum_list (map Passengers
                              (filter (\<lambda>r. From_Country r = c \<and> Type r = t) fdf))))
                   (columns f)
          \<and> None \<notin> set xs
          \<and> (\<forall>t \<in> set (columns f).
                (c, t) \<notin> country_type ` set fdf \<longrightarrow> cell (columns f) t xs = Some 0))"
proof -
  let ?cs = "filter (\<lambda>t. t \<noteq> ''Total'') (sorted_unique (map Type fdf))"
  let ?idx = "sorted_unique (map From_Country fdf)"
  let ?h = "group_total From_Country Passengers fdf"
  let ?top = "take 5 (sort_values_desc ?h ?idx)"
  let ?w = "\<lambda>c. map (\<lambda>t. Some (group_total country_type Passengers fdf (c, t))) ?cs"
  let ?f = "\<lparr>columns = ?cs, records = map (\<lambda>c. (c, ?w c)) ?top\<rparr>"
  have eq: "top_departure_countries fdf = Inr ?f"
    by (rule top_departure_countries_eq)
  have labels: "map fst (records ?f) = ?top"
    by (simp add: comp_def)
  have idx: "set ?idx = From_Country ` set fdf" "distinct ?idx"
    by (simp_all add: sorted_unique_props)
  have s: "sorted_wrt (\<lambda>a b. ?h b \<le> ?h a) (sort_values_desc ?h ?idx)"
    by (rule sorted_sort_values_desc)
  have 1: "columns ?f = filter (\<lambda>t. t \<noteq> ''Total'') (sorted_unique (map Type fdf))"
    by simp
  have 2: "''Total'' \<notin> set (columns ?f)"
    by simp
  have "length ?idx = card (From_Country ` set fdf)"
    using distinct_card [OF idx(2)] idx(1) by simp
  then have 3: "length (records ?f) = min 5 (card (From_Country ` set fdf))"
    by (simp add: length_sort_values_desc min.commute)
  have "distinct (sort_values_desc ?h ?idx)"
    using idx(2) by (simp add: sort_values_desc_def)
  then have 4: "distinct (map fst (records ?f))"
    unfolding labels by (rule distinct_take)
  have 5: "set (map fst (records ?f)) \<subseteq> From_Country ` set fdf"
    unfolding labels
    using set_take_subset [of 5 "sort_values_desc ?h ?idx"] idx(1)
    by (simp add: set_sort_values_desc)
  have 6: "sorted_wrt (\<lambda>a b. ?h b \<le> ?h a) (map fst (records ?f))"
    unfolding labels using s by (rule sorted_wrt_take)
  have 7: "?h c' \<le> ?h c"
    if "c \<in> set (map fst (records ?f))"
      and "c' \<in> From_Country ` set fdf - set (map fst (records ?f))" for c c'
    using take_dominates_rest [OF s, of c 5 c'] that idx(1)
    unfolding labels by (simp add: set_sort_values_desc)
  have 8: "?h c = sum_list (map (\<lambda>t. group_total country_type Passengers fdf (c, t))
                              (sorted_unique (map Type fdf)))" for c
    by (rule row_total [symmetric])
  have 9: "xs = map (\<lambda>t. Some (sum_list (map Passengers
                              (filter (\<lambda>r. From_Country r = c \<and> Type r = t) fdf))))
                   (columns ?f)
          \<and> None \<notin> set xs
          \<and> (\<forall>t \<in> set (columns ?f).
                (c, t) \<notin> country_type ` set fdf \<longrightarrow> cell (columns ?f) t xs = Some 0)"
    if "(c, xs) \<in> set (records ?f)" for c xs
  proof -
    from that have xs: "xs = ?w c" by auto
    have a: "xs = map (\<lambda>t. Some (sum_list (map Passengers
                              (filter (\<lambda>r. From_Country r = c \<and> Type r = t) fdf))))
                   (columns ?f)"
      by (simp add: xs group_total_def country_type_def)
    have b: "None \<notin> set xs"
      by (auto simp add: xs)
    have c: "cell (columns ?f) t xs = Some 0"
      if "t \<in> set (columns ?f)" and "(c, t) \<notin> country_type ` set fdf" for t
    proof -
      from that(1) have "t \<in> set ?cs" by simp
      then have "cell ?cs t (?w c) = Some (group_total country_type Passengers fdf (c, t))"
        by (rule cell_present)
      with that(2) show ?thesis
        by (simp add: xs group_total_absent)
    qed
    from a b c show ?thesis by blast
  qed
  from 1 2 3 4 5 6 7 8 9 have
    "columns ?f = filter (\<lambda>t. t \<noteq> ''Total'') (sorted_unique (map Type fdf))
     \<and> ''Total'' \<notin> set (columns ?f)
     \<and> length (records ?f) = min 5 (card (From_Country ` set fdf))
     \<and> distinct (map fst (records ?f))
     \<and> set (map fst (records ?f)) \<subseteq> From_Country ` set fdf
     \<and> sorted_wrt (\<lambda>a b. ?h b \<le> ?h a) (map fst (records ?f))
     \<and> (\<forall>c \<in> set (map fst (records ?f)).
          \<forall>c' \<in> From_Country ` set fdf - set (map fst (records ?f)). ?h c' \<le> ?h c)
     \<and> (\<forall>c. ?h c = sum_list (map (\<lambda>t. group_total country_type Passengers fdf (c, t))
                              (sorted_unique (map Type fdf))))
     \<and> (\<forall>(c, xs) \<in> set (records ?f).
          xs = map (\<lambda>t. Some (sum_list (map Passengers
                              (filter (\<lambda>r. From_Country r = c \<and> Type r = t) fdf))))
                   (columns ?f)
          \<and> None \<notin> set xs
          \<and> (\<forall>t \<in> set (columns ?f).
                (c, t) \<notin> country_type ` set fdf \<longrightarrow> cell (columns ?f) t xs = Some 0))"
    by blast
  with eq show ?thesis by blast
qed

theorem top_departure_countries_pivot_witness:
  "top_departure_countries six_countries_df =
     Inr \<lparr>columns = [''dom'', ''int''],
          records = [(''E'', [Some 50, Some 0]), (''D'', [Some 40, Some 0]),
                     (''C'', [Some 0, Some 30]), (''B'', [Some 20, Some 0]),
                     (''A'', [Some 12, Some 5])]\<rparr>
   \<and> ''F'' \<in> From_Country ` set six_countries_df
   \<and> group_total From_Country Passengers six_countries_df ''F''
       \<le> group_total From_Country Passengers six_countries_df ''E''
   \<and> (''C'', ''dom'') \<notin> country_type ` set six_countries_df
   \<and> cell [''dom'', ''int''] ''dom'' [Some 0, Some 30] = Some 0"
proof -
  let ?F = "\<lparr>columns = [''dom'', ''int''],
          records = [(''E'', [Some 50, Some 0]), (''D'', [Some 40, Some 0]),
                     (''C'', [Some 0, Some 30]), (''B'', [Some 20, Some 0]),
                     (''A'', [Some 12, Some 5])]\<rparr>"
  have ev: "top_departure_countries six_countries_df = Inr ?F"
    by (rule top_departure_countries_six)
  from top_departure_countries_pivot [of six_countries_df] obtain f where
    f: "top_departure_countries six_countries_df = Inr f"
    and dom: "\<forall>c \<in> set (map fst (records f)).
          \<forall>c' \<in> From_Country ` set six_countries_df - set (map fst (records f)).
            group_total From_Country Passengers six_countries_df c'
              \<le> group_total From_Country Passengers six_countries_df c"
    and cells: "\<forall>(c, xs) \<in> set (records f).
          xs = map (\<lambda>t. Some (sum_list (map Passengers
                 (filter (\<lambda>r. From_Country r = c \<and> Type r = t) six_countries_df))))
                   (columns f)
          \<and> None \<notin> set xs
          \<and> (\<forall>t \<in> set (columns f).
                (c, t) \<notin> country_type ` set six_countries_df \<longrightarrow>
                cell (columns f) t xs = Some 0)"
    by blast
  from f ev have fF: "f = ?F" by simp
  have F: "''F'' \<in> From_Country ` set six_countries_df"
    by (simp add: six_countries_df_def mk_row_def)
  have nF: "''F'' \<notin> set (map fst (records f))" and E: "''E'' \<in> set (map fst (records f))"
    by (simp_all add: fF)
  have le: "group_total From_Country Passengers six_countries_df ''F''
       \<le> group_total From_Country Passengers six_countries_df ''E''"
    using dom E F nF by blast
  have absent: "(''C'', ''dom'') \<notin> country_type ` set six_countries_df"
    by (simp add: six_countries_df_def mk_row_def country_type_def)
  have mem: "(''C'', [Some 0, Some 30]) \<in> set (records f)"
    by (simp add: fF)
  have col: "''dom'' \<in> set (columns f)"
    by (simp add: fF)
  note row_C = bspec [OF cells mem, unfolded split_conv]
  have "\<forall>t \<in> set (columns f). (''C'', t) \<notin> country_type ` set six_countries_df \<longrightarrow>
       cell (columns f) t [Some 0, Some 30] = Some 0"
    by (rule row_C [THEN conjunct2, THEN conjunct2])
  then have "(''C'', ''dom'') \<notin> country_type ` set six_countries_df \<longrightarrow>
       cell (columns f) ''dom'' [Some 0, Some 30] = Some 0"
    using col by (rule bspec)
  then have "cell (columns f) ''dom'' [Some 0, Some 30] = Some 0"
    using absent by (rule mp)
  then have "cell [''dom'', ''int''] ''dom'' [Some 0, Some 30] = Some 0"
    by (simp only: fF frame.simps)
  with ev F le absent show ?thesis by simp
qed

end
